theory Spec2Isabelle
  imports Complex_Main "HOL-Library.Multiset"
begin

section \<open>Values and errors\<close>

text \<open>
  The notebooks compute on floating-point arrays. A float is modelled as an exact real
  number or one of the three IEEE special values; rounding and the sign of zero are
  outside the model. The functions defined in the notebooks are translated from their
  source; the operations of numpy and xarray that they call are modelled by the
  documented behaviour of these libraries. An exception is a value of type \<open>error\<close>.
\<close>

datatype fval = NaN | PInf | NInf | Fin real

datatype error = TypeError | ValueError | IndexError | AssertionError | LinAlgError

section \<open>Longitude remap of the observations (cesm-lens, GISTEMP cell)\<close>

text \<open>
  \<^verbatim>\<open>ds = ds.assign_coords(lon=((ds.lon + 360) % 360)).sortby('lon')\<close>

  Along the \<open>lon\<close> dimension the dataset is a list with one entry per index: the
  coordinate value and the slice of the data variables at that index (the list of their
  values over the other dimensions).
  \<open>float_mod\<close> is the remainder of numpy for a non-zero divisor (the sign of the
  divisor); the notebook divides by the literal 360 only.
\<close>

type_synonym 'a lon_dataset = "(real \<times> 'a) list"

definition float_mod :: "real \<Rightarrow> real \<Rightarrow> real" where
  "float_mod a b = a - b * of_int \<lfloor>a / b\<rfloor>"

definition assign_coords_lon :: "(real \<Rightarrow> real) \<Rightarrow> 'a lon_dataset \<Rightarrow> 'a lon_dataset" where
  "assign_coords_lon f ds = map (\<lambda>(l, d). (f l, d)) ds"

definition sortby_lon :: "'a lon_dataset \<Rightarrow> 'a lon_dataset" where
  "sortby_lon ds = sort_key fst ds"

definition remap_lon :: "'a lon_dataset \<Rightarrow> 'a lon_dataset" where
  "remap_lon ds = sortby_lon (assign_coords_lon (\<lambda>l. float_mod (l + 360) 360) ds)"

section \<open>Float arithmetic\<close>

text \<open>
  Addition, multiplication and division on \<open>fval\<close> follow IEEE 754 on the special
  values: NaN is absorbing, opposite infinities add to NaN, zero times infinity is NaN,
  \<open>0 / 0\<close> is NaN and a non-zero value divided by zero is an infinity (numpy warns
  and does not raise).
\<close>

fun fadd :: "fval \<Rightarrow> fval \<Rightarrow> fval" where
  "fadd (Fin a) (Fin b) = Fin (a + b)"
| "fadd NaN _ = NaN"
| "fadd _ NaN = NaN"
| "fadd PInf NInf = NaN"
| "fadd NInf PInf = NaN"
| "fadd PInf _ = PInf"
| "fadd _ PInf = PInf"
| "fadd NInf _ = NInf"
| "fadd _ NInf = NInf"

fun fmul :: "fval \<Rightarrow> fval \<Rightarrow> fval" where
  "fmul (Fin a) (Fin b) = Fin (a * b)"
| "fmul NaN _ = NaN"
| "fmul _ NaN = NaN"
| "fmul PInf (Fin b) = (if b = 0 then NaN else if 0 < b then PInf else NInf)"
| "fmul NInf (Fin b) = (if b = 0 then NaN else if 0 < b then NInf else PInf)"
| "fmul (Fin a) PInf = (if a = 0 then NaN else if 0 < a then PInf else NInf)"
| "fmul (Fin a) NInf = (if a = 0 then NaN else if 0 < a then NInf else PInf)"
| "fmul PInf PInf = PInf"
| "fmul NInf NInf = PInf"
| "fmul PInf NInf = NInf"
| "fmul NInf PInf = NInf"

fun fdiv :: "fval \<Rightarrow> fval \<Rightarrow> fval" where
  "fdiv (Fin a) (Fin b) =
     (if b = 0 then (if a = 0 then NaN else if 0 < a then PInf else NInf)
      else Fin (a / b))"
| "fdiv NaN _ = NaN"
| "fdiv _ NaN = NaN"
| "fdiv (Fin a) PInf = Fin 0"
| "fdiv (Fin a) NInf = Fin 0"
| "fdiv PInf (Fin b) = (if b < 0 then NInf else PInf)"
| "fdiv NInf (Fin b) = (if b < 0 then PInf else NInf)"
| "fdiv _ _ = NaN"

definition isnull :: "fval \<Rightarrow> bool" where
  "isnull v = (v = NaN)"

primrec fsum :: "fval list \<Rightarrow> fval" where
  "fsum [] = Fin 0"
| "fsum (v # vs) = fadd v (fsum vs)"

text \<open>Reductions of xarray skip missing values on float data (\<open>skipna\<close>).\<close>

definition nansum :: "fval list \<Rightarrow> fval" where
  "nansum vs = fsum (filter (\<lambda>v. \<not> isnull v) vs)"

definition nanmean :: "fval list \<Rightarrow> fval" where
  "nanmean vs =
     (let ws = filter (\<lambda>v. \<not> isnull v) vs
      in fdiv (fsum ws) (Fin (real (length ws))))"

definition getitem :: "'a list \<Rightarrow> nat \<Rightarrow> error + 'a" where
  "getitem xs i = (if i < length xs then Inr (xs ! i) else Inl IndexError)"

section \<open>Weighted temporal mean of the observations (cesm-lens, HadCRUT4 cell)\<close>

text \<open>
  The dataset is a list of time steps in the order of its \<open>time\<close> dimension. Each step
  carries its time stamp (to the month), its row of \<open>time_bnds\<close> along \<open>nbnds\<close>, and
  its slice of \<open>air\<close> with the cells of the \<open>lat\<close> by \<open>lon\<close> grid in one list. Time
  bounds are time stamps, hence exact numbers. A dataset is rectangular: every step has
  as many cells, and as many bounds, as the first.
\<close>

record timestamp =
  year :: int
  month :: nat

record tstep =
  time :: timestamp
  time_bnds :: "real list"
  air :: "fval list"

type_synonym dataset = "tstep list"

definition rectangular :: "dataset \<Rightarrow> bool" where
  "rectangular ds =
     list_all (\<lambda>t. length (air t) = length (air (hd ds))
                 \<and> length (time_bnds t) = length (time_bnds (hd ds))) ds"

definition years :: "dataset \<Rightarrow> int list" where
  "years ds = map (\<lambda>t. year (time t)) ds"

text \<open>\<^verbatim>\<open>.diff(dim="nbnds")\<close>: first differences along a row.\<close>

fun np_diff :: "real list \<Rightarrow> real list" where
  "np_diff (a # b # xs) = (b - a) # np_diff (b # xs)"
| "np_diff _ = []"

text \<open>\<^verbatim>\<open>ds.time_bnds.diff(dim="nbnds")[:, 0]\<close>: index 0 of an empty axis raises.\<close>

fun time_bound_diff :: "dataset \<Rightarrow> error + real list" where
  "time_bound_diff [] = Inr []"
| "time_bound_diff (t # ts) =
     (case getitem (np_diff (time_bnds t)) 0 of
        Inl e \<Rightarrow> Inl e
      | Inr d \<Rightarrow> (case time_bound_diff ts of Inl e \<Rightarrow> Inl e | Inr dl \<Rightarrow> Inr (d # dl)))"

text \<open>
  \<^verbatim>\<open>x.groupby("time.year")\<close>: the members of the group of year \<open>Y\<close>, for an array
  \<open>xs\<close> along time whose steps have the years \<open>ys\<close>.
\<close>

definition year_group :: "int list \<Rightarrow> 'a list \<Rightarrow> int \<Rightarrow> 'a list" where
  "year_group ys xs Y = map snd (filter (\<lambda>(y, x). y = Y) (zip ys xs))"

text \<open>
  \<^verbatim>\<open>time_bound_diff.groupby("time.year") / time_bound_diff.groupby("time.year").sum(xr.ALL_DIMS)\<close>:
  each difference divided by the sum of the differences of its year.
\<close>

definition wgts :: "int list \<Rightarrow> real list \<Rightarrow> fval list" where
  "wgts ys dl = map (\<lambda>(y, d). fdiv (Fin d) (Fin (sum_list (year_group ys dl y)))) (zip ys dl)"

text \<open>\<^verbatim>\<open>wgts.groupby("time.year").sum(xr.ALL_DIMS)\<close>: one sum per year that occurs.\<close>

definition year_sums :: "int list \<Rightarrow> fval list \<Rightarrow> fval list" where
  "year_sums ys ws = map (\<lambda>Y. nansum (year_group ys ws Y)) (remdups ys)"

text \<open>
  \<^verbatim>\<open>np.testing.assert_allclose(actual, desired)\<close> with the defaults \<open>rtol = 1e-7\<close> and
  \<open>atol = 0\<close>, for a finite scalar \<open>desired\<close>: every element of \<open>actual\<close> is finite and
  within \<open>rtol * |desired|\<close> of it.
\<close>

definition isclose :: "fval \<Rightarrow> real \<Rightarrow> bool" where
  "isclose a desired =
     (case a of Fin x \<Rightarrow> \<bar>x - desired\<bar> \<le> 0 + 1 / 10 ^ 7 * \<bar>desired\<bar> | _ \<Rightarrow> False)"

definition assert_allclose :: "fval list \<Rightarrow> real \<Rightarrow> error + unit" where
  "assert_allclose actual desired =
     (if list_all (\<lambda>a. isclose a desired) actual then Inr () else Inl AssertionError)"

text \<open>
  \<^verbatim>\<open>x.resample(time="AS").sum(dim="time")\<close> for an array of rows along time: the time
  index has to be monotonic; there is one bin for each calendar year from the first to
  the last; a bin sums, cell by cell, the rows of its year, and a year with no row is
  filled with NaN.
\<close>

definition time_le :: "timestamp \<Rightarrow> timestamp \<Rightarrow> bool" where
  "time_le a b = (year a < year b \<or> (year a = year b \<and> month a \<le> month b))"

definition is_monotonic :: "timestamp list \<Rightarrow> bool" where
  "is_monotonic ts = sorted_wrt time_le ts"

definition column :: "'a list list \<Rightarrow> nat \<Rightarrow> 'a list" where
  "column rows c = map (\<lambda>r. r ! c) rows"

definition bin_sum :: "nat \<Rightarrow> fval list list \<Rightarrow> fval list" where
  "bin_sum ncells rows =
     (if rows = [] then replicate ncells NaN
      else map (\<lambda>c. nansum (column rows c)) [0..<ncells])"

definition resample_AS_sum :: "timestamp list \<Rightarrow> fval list list \<Rightarrow> error + (int \<times> fval list) list" where
  "resample_AS_sum ts rows =
     (if ts = [] \<or> \<not> is_monotonic ts then Inl ValueError
      else Inr (map (\<lambda>Y. (Y, bin_sum (length (hd rows)) (year_group (map year ts) rows Y)))
                  [year (hd ts) .. year (last ts)]))"

text \<open>
  \<^verbatim>\<open>
  def weighted_temporal_mean(ds):
      time_bound_diff = ds.time_bnds.diff(dim="nbnds")[:, 0]
      wgts = time_bound_diff.groupby("time.year") / time_bound_diff.groupby(
          "time.year"
      ).sum(xr.ALL_DIMS)
      np.testing.assert_allclose(wgts.groupby("time.year").sum(xr.ALL_DIMS), 1.0)
      obs = ds["air"]
      cond = obs.isnull()
      ones = xr.where(cond, 0.0, 1.0)
      obs_sum = (obs * wgts).resample(time="AS").sum(dim="time")
      ones_out = (ones * wgts).resample(time="AS").sum(dim="time")
      obs_s = (obs_sum / ones_out).mean(("lat", "lon")).to_series()
      return obs_s
  \<close>
  Grouping an array with no element fails in xarray (ValueError). The result is the
  series of one value per calendar year.
\<close>

definition ones :: "fval list \<Rightarrow> fval list" where
  "ones obs = map (\<lambda>v. if isnull v then Fin 0 else Fin 1) obs"

definition times_wgts :: "fval list list \<Rightarrow> fval list \<Rightarrow> fval list list" where
  "times_wgts rows ws = map (\<lambda>(r, w). map (\<lambda>v. fmul v w) r) (zip rows ws)"

definition weighted_temporal_mean :: "dataset \<Rightarrow> error + (int \<times> fval) list" where
  "weighted_temporal_mean ds =
     (case time_bound_diff ds of
        Inl e \<Rightarrow> Inl e
      | Inr dl \<Rightarrow>
          if ds = [] then Inl ValueError
          else
            let ws = wgts (years ds) dl in
            (case assert_allclose (year_sums (years ds) ws) 1 of
               Inl e \<Rightarrow> Inl e
             | Inr _ \<Rightarrow>
                 (case resample_AS_sum (map time ds) (times_wgts (map air ds) ws) of
                    Inl e \<Rightarrow> Inl e
                  | Inr obs_sum \<Rightarrow>
                      (case resample_AS_sum (map time ds) (times_wgts (map (\<lambda>t. ones (air t)) ds) ws) of
                         Inl e \<Rightarrow> Inl e
                       | Inr ones_out \<Rightarrow>
                           Inr (map (\<lambda>((Y, s), (_, n)). (Y, nanmean (map (\<lambda>(a, b). fdiv a b) (zip s n))))
                                  (zip obs_sum ones_out))))))"

section \<open>Linear trend of one series (cesm-lens)\<close>

text \<open>
  \<^verbatim>\<open>np.polyfit(x, y, deg)\<close> belongs to numpy. Its argument checks raise TypeError for
  an empty \<open>x\<close> and for \<open>x\<close> and \<open>y\<close> of different lengths. For degree 1, finite
  data and abscissae that are not all equal, it returns the coefficients
  \<open>[slope, intercept]\<close> of the least-squares line, here in closed form from the normal
  equations. What numpy does on any other input (a rank-deficient system, data that are
  not finite, another degree) is left to the parameter \<open>other\<close>.
\<close>

type_synonym polyfit = "real list \<Rightarrow> fval list \<Rightarrow> nat \<Rightarrow> error + fval list"

fun as_reals :: "fval list \<Rightarrow> real list option" where
  "as_reals [] = Some []"
| "as_reals (Fin a # vs) = map_option ((#) a) (as_reals vs)"
| "as_reals (_ # vs) = None"

definition Sx :: "(real \<times> real) list \<Rightarrow> real" where
  "Sx pts = sum_list (map fst pts)"

definition Sy :: "(real \<times> real) list \<Rightarrow> real" where
  "Sy pts = sum_list (map snd pts)"

definition Sxx :: "(real \<times> real) list \<Rightarrow> real" where
  "Sxx pts = sum_list (map (\<lambda>(x, v). x * x) pts)"

definition Sxy :: "(real \<times> real) list \<Rightarrow> real" where
  "Sxy pts = sum_list (map (\<lambda>(x, v). x * v) pts)"

definition det :: "(real \<times> real) list \<Rightarrow> real" where
  "det pts = real (length pts) * Sxx pts - Sx pts * Sx pts"

definition lstsq_slope :: "(real \<times> real) list \<Rightarrow> real" where
  "lstsq_slope pts = (real (length pts) * Sxy pts - Sx pts * Sy pts) / det pts"

definition lstsq_intercept :: "(real \<times> real) list \<Rightarrow> real" where
  "lstsq_intercept pts = (Sy pts * Sxx pts - Sx pts * Sxy pts) / det pts"

definition np_polyfit :: "polyfit \<Rightarrow> polyfit" where
  "np_polyfit other x y deg =
     (if x = [] then Inl TypeError
      else if length x \<noteq> length y then Inl TypeError
      else (case as_reals y of
              None \<Rightarrow> other x y deg
            | Some v \<Rightarrow>
                if deg = 1 \<and> det (zip x v) \<noteq> 0
                then Inr [Fin (lstsq_slope (zip x v)), Fin (lstsq_intercept (zip x v))]
                else other x y deg))"

text \<open>
  \<^verbatim>\<open>
  def calc_slope(y):
      """ufunc to be used by linear_trend"""
      x = np.arange(len(y))

      # drop missing values (NaNs) from x and y
      finite_indexes = ~np.isnan(y)
      slope = (
          np.nan
          if (np.sum(finite_indexes) < 2)
          else np.polyfit(x[finite_indexes], y[finite_indexes], 1)[0]
      )
      return slope
  \<close>
  The library's fit is a parameter of the model, so that what \<open>calc_slope\<close> does itself
  and what it hands to the library are told apart.
\<close>

definition np_arange :: "nat \<Rightarrow> real list" where
  "np_arange n = map real [0..<n]"

definition np_isnan :: "fval \<Rightarrow> bool" where
  "np_isnan v = (v = NaN)"

definition np_sum :: "bool list \<Rightarrow> nat" where
  "np_sum bs = length (filter (\<lambda>b. b) bs)"

text \<open>\<^verbatim>\<open>a[m]\<close> for a boolean mask \<open>m\<close> as long as \<open>a\<close>.\<close>

definition getitem_mask :: "'a list \<Rightarrow> bool list \<Rightarrow> 'a list" where
  "getitem_mask xs bs = map fst (filter snd (zip xs bs))"

definition calc_slope :: "polyfit \<Rightarrow> fval list \<Rightarrow> error + fval" where
  "calc_slope polyfit y =
     (let x = np_arange (length y);
          finite_indexes = map (\<lambda>v. \<not> np_isnan v) y
      in if np_sum finite_indexes < 2 then Inr NaN
         else (case polyfit (getitem_mask x finite_indexes) (getitem_mask y finite_indexes) 1 of
                 Inl e \<Rightarrow> Inl e
               | Inr c \<Rightarrow> getitem c 0))"

text \<open>
  The points that enter the fit, as the property names them: the finite entries of
  \<open>y\<close>, each against its position in \<open>y\<close>; and the squared error of the line
  \<open>a * x + b\<close> on a list of points.
\<close>

fun finite_points_from :: "nat \<Rightarrow> fval list \<Rightarrow> (real \<times> real) list" where
  "finite_points_from i [] = []"
| "finite_points_from i (Fin v # y) = (real i, v) # finite_points_from (Suc i) y"
| "finite_points_from i (_ # y) = finite_points_from (Suc i) y"

definition finite_points :: "fval list \<Rightarrow> (real \<times> real) list" where
  "finite_points y = finite_points_from 0 y"

definition squared_error :: "(real \<times> real) list \<Rightarrow> real \<Rightarrow> real \<Rightarrow> real" where
  "squared_error pts a b = sum_list (map (\<lambda>(x, v). (a * x + b - v) * (a * x + b - v)) pts)"

text \<open>
  The points that \<open>calc_slope\<close> hands to the fit: the entries of \<open>y\<close> that are not
  NaN, infinite entries among them, each against its position in \<open>y\<close>.
\<close>

fun non_nan_points_from :: "nat \<Rightarrow> fval list \<Rightarrow> (real \<times> fval) list" where
  "non_nan_points_from i [] = []"
| "non_nan_points_from i (NaN # y) = non_nan_points_from (Suc i) y"
| "non_nan_points_from i (v # y) = (real i, v) # non_nan_points_from (Suc i) y"

definition non_nan_points :: "fval list \<Rightarrow> (real \<times> fval) list" where
  "non_nan_points y = non_nan_points_from 0 y"

section \<open>Winter trends of the ensemble and of the observations (cesm-lens)\<close>

text \<open>
  \<^verbatim>\<open>
  def linear_trend(da, dim="time"):
      da_chunk = da.chunk({dim: -1})
      trend = xr.apply_ufunc(
          calc_slope,
          da_chunk,
          vectorize=True,
          input_core_dims=[[dim]],
          output_core_dims=[[]],
          output_dtypes=[np.float],
          dask="parallelized",
      )
      return trend
  \<close>
  An array with a time dimension is its time coordinate together with the list of its
  series along time, one series for each point of the other dimensions. Chunking does
  not change the values. \<open>apply_ufunc\<close> with \<open>vectorize=True\<close> calls \<open>calc_slope\<close> on
  every series; an exception of a call is the exception of the computation.
\<close>

type_synonym data_array = "timestamp list \<times> fval list list"

fun linear_trend :: "polyfit \<Rightarrow> fval list list \<Rightarrow> error + fval list" where
  "linear_trend polyfit [] = Inr []"
| "linear_trend polyfit (y # da) =
     (case calc_slope polyfit y of
        Inl e \<Rightarrow> Inl e
      | Inr slope \<Rightarrow>
          (case linear_trend polyfit da of Inl e \<Rightarrow> Inl e | Inr trend \<Rightarrow> Inr (slope # trend)))"

text \<open>
  \<^verbatim>\<open>
  winter_seasons = seasons.sel(
      time=seasons.time.where(seasons.time.dt.month == 12, drop=True)
  )
  winter_trends = linear_trend(
      winter_seasons.chunk({"lat": 20, "lon": 20, "time": -1})
  ).load() * len(winter_seasons.time)
  ...
  # Make sure that we have 34 seasons
  assert len(winter_seasons.time) == 34
  ...
  obs_winter_trends = linear_trend(
      obs_winter_seasons.chunk({"lat": 20, "lon": 20, "time": -1})
  ).load() * len(obs_winter_seasons.time)
  \<close>
  The time stamps of a resampled array are distinct, so that selecting the labels of the
  December seasons keeps exactly the entries that carry them.
\<close>

definition winter_seasons :: "data_array \<Rightarrow> data_array" where
  "winter_seasons seasons =
     (let december = map (\<lambda>t. month t = 12) (fst seasons)
      in (getitem_mask (fst seasons) december,
          map (\<lambda>series. getitem_mask series december) (snd seasons)))"

definition winter_trends :: "polyfit \<Rightarrow> data_array \<Rightarrow> error + fval list" where
  "winter_trends polyfit winter =
     (case linear_trend polyfit (snd winter) of
        Inl e \<Rightarrow> Inl e
      | Inr trend \<Rightarrow> Inr (map (\<lambda>slope. fmul slope (Fin (real (length (fst winter))))) trend))"

definition assert_34_seasons :: "data_array \<Rightarrow> error + unit" where
  "assert_34_seasons winter =
     (if length (fst winter) = 34 then Inr () else Inl AssertionError)"

definition obs_winter_trends :: "polyfit \<Rightarrow> data_array \<Rightarrow> error + fval list" where
  "obs_winter_trends polyfit obs_winter =
     (case linear_trend polyfit (snd obs_winter) of
        Inl e \<Rightarrow> Inl e
      | Inr trend \<Rightarrow> Inr (map (\<lambda>slope. fmul slope (Fin (real (length (fst obs_winter))))) trend))"

section \<open>The weights in float64\<close>











section \<open>Annual means\<close>

text \<open>
  \<^verbatim>\<open>x.resample(time="AS").mean("time")\<close>, the library's own annual mean, as the
  notebooks use it on the ensemble: every time step of a year counts the same.
\<close>

definition bin_mean :: "nat \<Rightarrow> fval list list \<Rightarrow> fval list" where
  "bin_mean ncells rows =
     (if rows = [] then replicate ncells NaN
      else map (\<lambda>c. nanmean (column rows c)) [0..<ncells])"

definition resample_AS_mean :: "timestamp list \<Rightarrow> fval list list \<Rightarrow> error + (int \<times> fval list) list" where
  "resample_AS_mean ts rows =
     (if ts = [] \<or> \<not> is_monotonic ts then Inl ValueError
      else Inr (map (\<lambda>Y. (Y, bin_mean (length (hd rows)) (year_group (map year ts) rows Y)))
                  [year (hd ts) .. year (last ts)]))"

text \<open>
  The weighted temporal mean, stated directly: for a calendar year and a grid cell, the observations that are present, each with the length of its
  time-bounds interval, and their mean weighted by these lengths (NaN when no
  observation is present). \<open>G\<close> is the list of the time steps of the year, each with
  its time-bound difference.
\<close>

definition available :: "(tstep \<times> real) list \<Rightarrow> nat \<Rightarrow> (real \<times> real) list" where
  "available G c = concat (map (\<lambda>(t, d). case air t ! c of Fin v \<Rightarrow> [(d, v)] | _ \<Rightarrow> []) G)"

definition cell_weighted_mean :: "dataset \<Rightarrow> real list \<Rightarrow> int \<Rightarrow> nat \<Rightarrow> fval" where
  "cell_weighted_mean ds dl Y c =
     (let av = available (year_group (years ds) (zip ds dl) Y) c
      in if av = [] then NaN
         else Fin (sum_list (map (\<lambda>(d, v). d * v) av) / sum_list (map fst av)))"

section \<open>Example inputs\<close>

definition hadcrut_example :: dataset where
  "hadcrut_example =
     [\<lparr>time = \<lparr>year = 2000, month = 1\<rparr>, time_bnds = [0, 1], air = [Fin 0, NaN]\<rparr>,
      \<lparr>time = \<lparr>year = 2000, month = 2\<rparr>, time_bnds = [1, 4], air = [Fin 4, NaN]\<rparr>,
      \<lparr>time = \<lparr>year = 2002, month = 1\<rparr>, time_bnds = [4, 6], air = [Fin 5, Fin 7]\<rparr>]"

definition two_months_example :: dataset where
  "two_months_example =
     [\<lparr>time = \<lparr>year = 2000, month = 1\<rparr>, time_bnds = [0, 1], air = [Fin 0]\<rparr>,
      \<lparr>time = \<lparr>year = 2000, month = 2\<rparr>, time_bnds = [1, 4], air = [Fin 4]\<rparr>]"

definition degenerate_example :: dataset where
  "degenerate_example =
     [\<lparr>time = \<lparr>year = 2000, month = 1\<rparr>, time_bnds = [5, 5], air = [Fin 1]\<rparr>]"



section \<open>Properties of the longitude remap\<close>

lemma float_mod_360_range: "0 \<le> float_mod a 360 \<and> float_mod a 360 < 360"
proof -
  have "of_int \<lfloor>a / 360\<rfloor> \<le> a / 360" "a / 360 < of_int \<lfloor>a / 360\<rfloor> + 1"
    by linarith+
  then show ?thesis
    unfolding float_mod_def by (simp add: field_simps)
qed

lemma set_remap_lon:
  "set (remap_lon ds) = (\<lambda>(l, d). (float_mod (l + 360) 360, d)) ` set ds"
  by (simp add: remap_lon_def sortby_lon_def assign_coords_lon_def)

lemma mset_remap_lon:
  "mset (remap_lon ds) = image_mset (\<lambda>(l, d). (float_mod (l + 360) 360, d)) (mset ds)"
  by (simp add: remap_lon_def sortby_lon_def assign_coords_lon_def)

lemma snd_remapped: "snd ((\<lambda>(l, d). (f l, d)) p) = snd p"
  by (cases p) simp

lemma mset_concat_slices: "mset (concat xss) = sum_mset (image_mset mset (mset xss))"
  by (induction xss) simp_all

text \<open>
  C10. For a longitude coordinate with values in \<open>[-180, 180]\<close>, every longitude of the
  remapped dataset lies in \<open>[0, 360)\<close>, the remapped longitude coordinate is sorted in
  non-decreasing order, and the data are only reordered along \<open>lon\<close>: the slices, and
  with them the data values, are the same multiset as before.
\<close>

theorem remap_lon_correct:
  assumes "\<forall>l \<in> set (map fst ds). -180 \<le> l \<and> l \<le> 180"
  shows "(\<forall>l \<in> set (map fst (remap_lon ds)). 0 \<le> l \<and> l < 360)
       \<and> sorted (map fst (remap_lon ds))
       \<and> mset (map snd (remap_lon ds)) = mset (map snd ds)
       \<and> mset (concat (map snd (remap_lon ds))) = mset (concat (map snd ds))"
proof (intro conjI)
  show "\<forall>l \<in> set (map fst (remap_lon ds)). 0 \<le> l \<and> l < 360"
    using float_mod_360_range by (auto simp: set_remap_lon)
  show "sorted (map fst (remap_lon ds))"
    by (simp add: remap_lon_def sortby_lon_def)
  have "mset (map snd (remap_lon ds)) = image_mset snd (mset (remap_lon ds))"
    by simp
  also have "\<dots> = image_mset snd (mset ds)"
    by (simp add: mset_remap_lon image_mset.compositionality comp_def snd_remapped)
  finally show slices: "mset (map snd (remap_lon ds)) = mset (map snd ds)"
    by simp
  show "mset (concat (map snd (remap_lon ds))) = mset (concat (map snd ds))"
    unfolding mset_concat_slices slices ..
qed

theorem remap_lon_correct_witness:
  "remap_lon [(-180, [1, 2]), (-90, [3, 4]), (0, [5, 6]), (90, [7, 8]), (180, [9, 10 :: int])]
     = [(0, [5, 6]), (90, [7, 8]), (180, [1, 2]), (180, [9, 10]), (270, [3, 4])]
   \<and> sorted (map fst
        (remap_lon [(-180, [1, 2]), (-90, [3, 4]), (0, [5, 6]), (90, [7, 8]), (180, [9, 10 :: int])]))
   \<and> mset (concat (map snd
        (remap_lon [(-180, [1, 2]), (-90, [3, 4]), (0, [5, 6]), (90, [7, 8]), (180, [9, 10 :: int])])))
       = mset [1, 2, 3, 4, 5, 6, 7, 8, 9, 10]"
proof -
  have h: "\<forall>l \<in> set (map fst [(-180 :: real, [1, 2]), (-90, [3, 4]), (0, [5, 6]), (90, [7, 8]),
                                (180, [9, 10 :: int])]).
             -180 \<le> l \<and> l \<le> 180"
    by simp
  have e: "remap_lon [(-180, [1, 2]), (-90, [3, 4]), (0, [5, 6]), (90, [7, 8]), (180, [9, 10 :: int])]
     = [(0, [5, 6]), (90, [7, 8]), (180, [1, 2]), (180, [9, 10]), (270, [3, 4])]"
    by (simp add: remap_lon_def sortby_lon_def assign_coords_lon_def float_mod_def)
  from remap_lon_correct [OF h] e show ?thesis by simp
qed

section \<open>Properties of the weights of the temporal mean\<close>

lemma time_bound_diff_length: "time_bound_diff ds = Inr dl \<Longrightarrow> length dl = length ds"
  by (induction ds arbitrary: dl) (auto split: sum.splits)

lemma length_years [simp]: "length (years ds) = length ds"
  by (simp add: years_def)

lemma year_group_map_zip:
  "length ys = length xs \<Longrightarrow>
   year_group ys (map (\<lambda>(y, x). h y x) (zip ys xs)) Y = map (h Y) (year_group ys xs Y)"
  by (induction ys xs rule: list_induct2) (auto simp: year_group_def)

lemma year_group_wgts:
  "length ys = length dl \<Longrightarrow>
   year_group ys (wgts ys dl) Y
     = map (\<lambda>d. fdiv (Fin d) (Fin (sum_list (year_group ys dl Y)))) (year_group ys dl Y)"
  unfolding wgts_def by (rule year_group_map_zip)

lemma set_year_group: "set (year_group ys xs Y) \<subseteq> set xs"
  by (auto simp: year_group_def dest: set_zip_rightD)

lemma year_group_nonempty:
  "length ys = length xs \<Longrightarrow> Y \<in> set ys \<Longrightarrow> year_group ys xs Y \<noteq> []"
  by (induction ys xs rule: list_induct2) (auto simp: year_group_def)

lemma nansum_scaled:
  "S \<noteq> 0 \<Longrightarrow> nansum (map (\<lambda>d. fdiv (Fin d) (Fin S)) xs) = Fin (sum_list xs / S)"
  by (induction xs) (auto simp: nansum_def isnull_def add_divide_distrib)

lemma nansum_div_zero:
  "nansum (map (\<lambda>d. fdiv (Fin d) (Fin 0)) xs) \<in> {Fin 0, PInf, NInf, NaN}"
  by (induction xs) (auto simp: nansum_def isnull_def)

lemma sum_list_pos_real:
  fixes xs :: "real list"
  shows "xs \<noteq> [] \<Longrightarrow> \<forall>x \<in> set xs. 0 < x \<Longrightarrow> 0 < sum_list xs"
  by (induction xs) (auto simp: add_pos_nonneg sum_list_nonneg less_imp_le)

lemma year_sum_one:
  assumes "length ys = length dl" "sum_list (year_group ys dl Y) \<noteq> 0"
  shows "nansum (year_group ys (wgts ys dl) Y) = Fin 1"
proof -
  have "nansum (year_group ys (wgts ys dl) Y)
          = Fin (sum_list (year_group ys dl Y) / sum_list (year_group ys dl Y))"
    unfolding year_group_wgts [OF assms(1)] by (rule nansum_scaled [OF assms(2)])
  with assms(2) show ?thesis by simp
qed

lemma year_sum_degenerate:
  assumes "length ys = length dl" "sum_list (year_group ys dl Y) = 0"
  shows "\<not> isclose (nansum (year_group ys (wgts ys dl) Y)) 1"
proof -
  have "nansum (year_group ys (wgts ys dl) Y) \<in> {Fin 0, PInf, NInf, NaN}"
    unfolding year_group_wgts [OF assms(1)] assms(2) by (rule nansum_div_zero)
  then show ?thesis by (auto simp: isclose_def)
qed

lemma assert_allclose_year_sums:
  assumes "length ys = length dl"
  shows "assert_allclose (year_sums ys (wgts ys dl)) 1 = Inr ()
          \<longleftrightarrow> (\<forall>Y \<in> set ys. sum_list (year_group ys dl Y) \<noteq> 0)"
proof -
  have "isclose (nansum (year_group ys (wgts ys dl) Y)) 1 \<longleftrightarrow> sum_list (year_group ys dl Y) \<noteq> 0" for Y
    using year_sum_one [OF assms, of Y] year_sum_degenerate [OF assms, of Y]
    by (cases "sum_list (year_group ys dl Y) = 0") (auto simp: isclose_def)
  then show ?thesis
    by (simp add: assert_allclose_def year_sums_def list_all_iff)
qed

lemma resample_AS_sum_error: "resample_AS_sum ts rows = Inl e \<Longrightarrow> e = ValueError"
  by (auto simp: resample_AS_sum_def split: if_splits)

lemma assert_allclose_error: "assert_allclose a d = Inl e \<Longrightarrow> e = AssertionError"
  by (auto simp: assert_allclose_def split: if_splits)

lemma time_bound_diff_error: "time_bound_diff ds = Inl e \<Longrightarrow> e = IndexError"
  by (induction ds) (auto simp: getitem_def split: sum.splits if_splits)

lemma weighted_temporal_mean_AssertionError:
  "weighted_temporal_mean ds = Inl AssertionError \<longleftrightarrow>
     (\<exists>dl. time_bound_diff ds = Inr dl \<and> ds \<noteq> []
        \<and> assert_allclose (year_sums (years ds) (wgts (years ds) dl)) 1 = Inl AssertionError)"
  by (auto simp: weighted_temporal_mean_def Let_def split: sum.splits
      dest: resample_AS_sum_error time_bound_diff_error assert_allclose_error)

lemma positive_year_sums:
  fixes dl :: "real list"
  assumes "length ys = length dl" "\<forall>d \<in> set dl. 0 < d" "Y \<in> set ys"
  shows "sum_list (year_group ys dl Y) \<noteq> 0"
proof -
  have "year_group ys dl Y \<noteq> []"
    using assms(1,3) by (rule year_group_nonempty)
  moreover have "\<forall>d \<in> set (year_group ys dl Y). 0 < d"
    using assms(2) set_year_group [of ys dl Y] by blast
  ultimately have "0 < sum_list (year_group ys dl Y)"
    by (rule sum_list_pos_real)
  then show ?thesis by simp
qed

subsection \<open>The same weights in float64\<close>



















section \<open>The assertions of the notebook\<close>

text \<open>
  C2 as stated: no execution evaluates an assertion written in the repository. These
  two executions do, and end in the AssertionError of the repository's own check:
  seasons with one December only, and a dataset whose only time step has equal time
  bounds.
\<close>

theorem assertions_evaluated_counterexample:
  "assert_34_seasons
     (winter_seasons ([\<lparr>year = 1979, month = 9\<rparr>, \<lparr>year = 1979, month = 12\<rparr>], [[Fin 1, Fin 2]]))
     = Inl AssertionError
   \<and> weighted_temporal_mean degenerate_example = Inl AssertionError"
  by (simp add: assert_34_seasons_def winter_seasons_def getitem_mask_def degenerate_example_def
      weighted_temporal_mean_def getitem_def years_def wgts_def year_group_def
      year_sums_def nansum_def isnull_def assert_allclose_def isclose_def)

text \<open>
  C2 as amended. The repository defines two programmatic checks. The cell after the
  ensemble trends raises AssertionError exactly when the number of December seasons is
  not 34. \<open>weighted_temporal_mean\<close> raises AssertionError exactly when the time-bound
  differences exist, the dataset is not empty, and the differences of some calendar
  year sum to zero; otherwise its weights pass the check.
\<close>

theorem repository_assertions:
  "(assert_34_seasons (winter_seasons seasons) = Inl AssertionError
      \<longleftrightarrow> length (filter (\<lambda>t. month t = 12) (fst seasons)) \<noteq> 34)
   \<and> (weighted_temporal_mean ds = Inl AssertionError
      \<longleftrightarrow> (\<exists>dl. time_bound_diff ds = Inr dl \<and> ds \<noteq> []
             \<and> (\<exists>Y \<in> set (years ds). sum_list (year_group (years ds) dl Y) = 0)))"
proof (intro conjI)
  have "getitem_mask ts (map p ts) = filter p ts" for ts :: "timestamp list" and p
    by (induction ts) (simp_all add: getitem_mask_def)
  then show "assert_34_seasons (winter_seasons seasons) = Inl AssertionError
      \<longleftrightarrow> length (filter (\<lambda>t. month t = 12) (fst seasons)) \<noteq> 34"
    by (simp add: assert_34_seasons_def winter_seasons_def)
  have "assert_allclose (year_sums (years ds) (wgts (years ds) dl)) 1 = Inl AssertionError
          \<longleftrightarrow> (\<exists>Y \<in> set (years ds). sum_list (year_group (years ds) dl Y) = 0)"
    if "time_bound_diff ds = Inr dl" for dl
  proof -
    have len: "length (years ds) = length dl"
      using time_bound_diff_length [OF that] by simp
    have "assert_allclose (year_sums (years ds) (wgts (years ds) dl)) 1 = Inl AssertionError
            \<longleftrightarrow> assert_allclose (year_sums (years ds) (wgts (years ds) dl)) 1 \<noteq> Inr ()"
      by (simp add: assert_allclose_def)
    then show ?thesis
      using assert_allclose_year_sums [OF len] by blast
  qed
  then show "weighted_temporal_mean ds = Inl AssertionError
      \<longleftrightarrow> (\<exists>dl. time_bound_diff ds = Inr dl \<and> ds \<noteq> []
             \<and> (\<exists>Y \<in> set (years ds). sum_list (year_group (years ds) dl Y) = 0))"
    unfolding weighted_temporal_mean_AssertionError by blast
qed

theorem repository_assertions_witness:
  "assert_34_seasons
     (winter_seasons ([\<lparr>year = 1980, month = 12\<rparr>, \<lparr>year = 1981, month = 3\<rparr>], [[Fin 2, Fin 3]]))
      = Inl AssertionError
   \<and> weighted_temporal_mean hadcrut_example \<noteq> Inl AssertionError"
proof -
  have d: "time_bound_diff hadcrut_example = Inr [1, 3, 2]"
    by (simp add: hadcrut_example_def getitem_def)
  have y: "years hadcrut_example = [2000, 2000, 2002]"
    by (simp add: hadcrut_example_def years_def)
  show ?thesis
    using repository_assertions
      [of "([\<lparr>year = 1980, month = 12\<rparr>, \<lparr>year = 1981, month = 3\<rparr>], [[Fin 2, Fin 3]])"
          hadcrut_example]
    by (simp add: d y year_group_def)
qed

section \<open>The least-squares line\<close>

lemma squared_error_expand:
  "squared_error pts a b
     = a * a * Sxx pts + 2 * a * b * Sx pts + real (length pts) * b * b
       - 2 * a * Sxy pts - 2 * b * Sy pts + sum_list (map (\<lambda>(x, v). v * v) pts)"
  by (induction pts) (auto simp: squared_error_def Sxx_def Sx_def Sxy_def Sy_def algebra_simps)

lemma line_squares_expand:
  "sum_list (map (\<lambda>(x, v). (u * x + w) * (u * x + w)) pts)
     = u * u * Sxx pts + 2 * u * w * Sx pts + real (length pts) * w * w"
  by (induction pts) (auto simp: Sxx_def Sx_def algebra_simps)

lemma normal_equation_1:
  fixes n sx sxx sxy sy d :: real
  assumes "d = n * sxx - sx * sx" "d \<noteq> 0"
  shows "(n * sxy - sx * sy) / d * sxx + (sy * sxx - sx * sxy) / d * sx = sxy"
proof -
  have h: "(n * sxy - sx * sy) * sxx + (sy * sxx - sx * sxy) * sx = sxy * d"
    by (simp add: assms(1) algebra_simps)
  have "(n * sxy - sx * sy) / d * sxx + (sy * sxx - sx * sxy) / d * sx
          = ((n * sxy - sx * sy) * sxx + (sy * sxx - sx * sxy) * sx) / d"
    by (simp add: add_divide_distrib)
  also have "\<dots> = sxy * d / d"
    by (simp only: h)
  finally show ?thesis
    using assms(2) by simp
qed

lemma normal_equation_2:
  fixes n sx sxx sxy sy d :: real
  assumes "d = n * sxx - sx * sx" "d \<noteq> 0"
  shows "(n * sxy - sx * sy) / d * sx + (sy * sxx - sx * sxy) / d * n = sy"
proof -
  have h: "(n * sxy - sx * sy) * sx + (sy * sxx - sx * sxy) * n = sy * d"
    by (simp add: assms(1) algebra_simps)
  have "(n * sxy - sx * sy) / d * sx + (sy * sxx - sx * sxy) / d * n
          = ((n * sxy - sx * sy) * sx + (sy * sxx - sx * sxy) * n) / d"
    by (simp add: add_divide_distrib)
  also have "\<dots> = sy * d / d"
    by (simp only: h)
  finally show ?thesis
    using assms(2) by simp
qed

lemma normal_equations:
  assumes "det pts \<noteq> 0"
  shows "lstsq_slope pts * Sxx pts + lstsq_intercept pts * Sx pts = Sxy pts"
    and "lstsq_slope pts * Sx pts + lstsq_intercept pts * real (length pts) = Sy pts"
  unfolding lstsq_slope_def lstsq_intercept_def
  using normal_equation_1 [OF det_def assms] normal_equation_2 [OF det_def assms]
  by blast+

lemma squared_error_decompose:
  assumes "det pts \<noteq> 0"
  shows "squared_error pts a b
     = squared_error pts (lstsq_slope pts) (lstsq_intercept pts)
       + sum_list (map (\<lambda>(x, v). ((a - lstsq_slope pts) * x + (b - lstsq_intercept pts))
                                * ((a - lstsq_slope pts) * x + (b - lstsq_intercept pts))) pts)"
  unfolding squared_error_expand line_squares_expand
    normal_equations(1) [OF assms, symmetric] normal_equations(2) [OF assms, symmetric]
  by (simp add: algebra_simps)


lemma centred_squares_expand:
  "sum_list (map (\<lambda>(x, v). (k * x - S) * (k * x - S)) pts)
     = k * k * Sxx pts - 2 * k * S * Sx pts + real (length pts) * S * S"
  by (induction pts) (auto simp: Sxx_def Sx_def algebra_simps)

lemma sum_list_squares_zero_gen:
  fixes f :: "'a \<Rightarrow> real"
  shows "sum_list (map (\<lambda>p. f p * f p) ps) = 0 \<Longrightarrow> p \<in> set ps \<Longrightarrow> f p = 0"
proof (induction ps)
  case Nil
  then show ?case by simp
next
  case (Cons q ps)
  have nn: "0 \<le> sum_list (map (\<lambda>p. f p * f p) ps)"
    by (rule sum_list_nonneg) auto
  have "0 \<le> f q * f q" by simp
  with nn Cons.prems(1) have "f q * f q = 0" "sum_list (map (\<lambda>p. f p * f p) ps) = 0"
    by (auto simp: add_nonneg_eq_0_iff)
  with Cons show ?case by auto
qed

lemma sum_list_squares_zero:
  fixes g :: "real \<Rightarrow> real"
  assumes "sum_list (map (\<lambda>(x, v). g x * g x) pts) = 0" "(x, v) \<in> set pts"
  shows "g x = 0"
proof -
  have "sum_list (map (\<lambda>p. g (fst p) * g (fst p)) pts)
          = sum_list (map (\<lambda>(x, v). g x * g x) pts)"
    by (induction pts) auto
  with assms(1) have "sum_list (map (\<lambda>p. g (fst p) * g (fst p)) pts) = 0"
    by simp
  from sum_list_squares_zero_gen [of "\<lambda>p. g (fst p)", OF this assms(2)]
  show ?thesis by simp
qed

lemma det_nonzero:
  assumes "(x1, v1) \<in> set pts" "(x2, v2) \<in> set pts" "x1 \<noteq> x2"
  shows "det pts \<noteq> 0"
proof
  assume z: "det pts = 0"
  let ?n = "real (length pts)"
  have "sum_list (map (\<lambda>(x, v). (?n * x - Sx pts) * (?n * x - Sx pts)) pts) = ?n * det pts"
    unfolding centred_squares_expand det_def by (simp add: algebra_simps)
  then have s: "sum_list (map (\<lambda>(x, v). (?n * x - Sx pts) * (?n * x - Sx pts)) pts) = 0"
    using z by simp
  from sum_list_squares_zero [of "\<lambda>x. ?n * x - Sx pts", OF s assms(1)]
    sum_list_squares_zero [of "\<lambda>x. ?n * x - Sx pts", OF s assms(2)]
  have "?n * x1 = ?n * x2" by simp
  moreover have "?n \<noteq> 0" using assms(1) by (cases pts) auto
  ultimately show False using assms(3) by simp
qed

lemma lstsq_minimal:
  assumes "det pts \<noteq> 0"
  shows "squared_error pts (lstsq_slope pts) (lstsq_intercept pts) \<le> squared_error pts a b"
proof -
  have "0 \<le> sum_list (map (\<lambda>(x, v). ((a - lstsq_slope pts) * x + (b - lstsq_intercept pts))
                                * ((a - lstsq_slope pts) * x + (b - lstsq_intercept pts))) pts)"
    by (rule sum_list_nonneg) auto
  then show ?thesis
    using squared_error_decompose [OF assms, of a b] by linarith
qed

lemma lstsq_unique:
  assumes "(x1, v1) \<in> set pts" "(x2, v2) \<in> set pts" "x1 \<noteq> x2"
    and "squared_error pts a b \<le> squared_error pts (lstsq_slope pts) (lstsq_intercept pts)"
  shows "a = lstsq_slope pts \<and> b = lstsq_intercept pts"
proof -
  let ?u = "a - lstsq_slope pts" and ?w = "b - lstsq_intercept pts"
  have d: "det pts \<noteq> 0" using assms(1-3) by (rule det_nonzero)
  have nn: "0 \<le> sum_list (map (\<lambda>(x, v). (?u * x + ?w) * (?u * x + ?w)) pts)"
    by (rule sum_list_nonneg) auto
  have z: "sum_list (map (\<lambda>(x, v). (?u * x + ?w) * (?u * x + ?w)) pts) = 0"
    using squared_error_decompose [OF d, of a b] assms(4) nn by linarith
  from sum_list_squares_zero [of "\<lambda>x. ?u * x + ?w", OF z assms(1)]
    sum_list_squares_zero [of "\<lambda>x. ?u * x + ?w", OF z assms(2)]
  have e: "?u * x1 + ?w = 0" "?u * x2 + ?w = 0" by simp_all
  then have "?u * (x1 - x2) = 0" by (simp add: algebra_simps)
  with assms(3) have u: "?u = 0" by simp
  with e(1) have "?w = 0" by simp
  with u show ?thesis by simp
qed


lemma mask_Cons [simp]:
  "getitem_mask (x # xs) (b # bs) = (if b then x # getitem_mask xs bs else getitem_mask xs bs)"
  by (simp add: getitem_mask_def)

lemma mask_Nil [simp]: "getitem_mask [] bs = []"
  by (simp add: getitem_mask_def)

lemma np_sum_Cons [simp]: "np_sum (b # bs) = (if b then Suc (np_sum bs) else np_sum bs)"
  by (simp add: np_sum_def)

lemma np_sum_Nil [simp]: "np_sum [] = 0"
  by (simp add: np_sum_def)

lemma np_sum_finite_points:
  "\<forall>v \<in> set y. v \<noteq> PInf \<and> v \<noteq> NInf \<Longrightarrow>
   np_sum (map (\<lambda>v. \<not> np_isnan v) y) = length (finite_points_from i y)"
proof (induction y arbitrary: i)
  case Nil
  then show ?case by simp
next
  case (Cons v y)
  then show ?case by (cases v) (simp_all add: np_isnan_def)
qed

lemma mask_positions:
  "\<forall>v \<in> set y. v \<noteq> PInf \<and> v \<noteq> NInf \<Longrightarrow>
   getitem_mask (map real [i..<i + length y]) (map (\<lambda>v. \<not> np_isnan v) y)
     = map fst (finite_points_from i y)"
proof (induction y arbitrary: i)
  case Nil
  then show ?case by simp
next
  case (Cons v y)
  have e: "map real [i..<i + length (v # y)] = real i # map real [Suc i..<Suc i + length y]"
    by (simp add: upt_conv_Cons del: upt_Suc)
  from Cons.prems Cons.IH [of "Suc i"] show ?case
    unfolding e by (cases v) (simp_all add: np_isnan_def del: upt_Suc)
qed

lemma mask_values:
  "\<forall>v \<in> set y. v \<noteq> PInf \<and> v \<noteq> NInf \<Longrightarrow>
   as_reals (getitem_mask y (map (\<lambda>v. \<not> np_isnan v) y)) = Some (map snd (finite_points_from i y))"
proof (induction y arbitrary: i)
  case Nil
  then show ?case by simp
next
  case (Cons v y)
  then show ?case by (cases v) (simp_all add: np_isnan_def)
qed

lemma mask_values_length:
  "length (getitem_mask y (map (\<lambda>v. \<not> np_isnan v) y)) = np_sum (map (\<lambda>v. \<not> np_isnan v) y)"
  by (induction y) simp_all

lemma finite_points_from_lower: "p \<in> set (finite_points_from i y) \<Longrightarrow> real i \<le> fst p"
proof (induction i y rule: finite_points_from.induct)
  case (1 i)
  then show ?case by simp
next
  case (2 i v y)
  then show ?case by fastforce
qed fastforce+

lemma finite_points_from_first_two:
  "finite_points_from i y = p # q # ps \<Longrightarrow> fst p < fst q"
proof (induction i y rule: finite_points_from.induct)
  case (1 i)
  then show ?case by simp
next
  case (2 i v y)
  then have "q \<in> set (finite_points_from (Suc i) y)" "fst p = real i" by auto
  from finite_points_from_lower [OF this(1)] this(2) show ?case by simp
qed simp_all

lemma two_points_det:
  assumes "2 \<le> length (finite_points y)"
  shows "\<exists>x1 v1 x2 v2. (x1, v1) \<in> set (finite_points y) \<and> (x2, v2) \<in> set (finite_points y) \<and> x1 \<noteq> x2"
proof -
  obtain p q ps where e: "finite_points y = p # q # ps"
    using assms by (cases "finite_points y"; cases "tl (finite_points y)") auto
  then have "fst p < fst q"
    unfolding finite_points_def by (rule finite_points_from_first_two)
  moreover have "(fst p, snd p) \<in> set (finite_points y)" "(fst q, snd q) \<in> set (finite_points y)"
    using e by simp_all
  ultimately show ?thesis by (metis less_irrefl)
qed

lemma calc_slope_value:
  assumes "\<forall>v \<in> set y. v \<noteq> PInf \<and> v \<noteq> NInf"
  shows "calc_slope (np_polyfit other) y
          = Inr (if length (finite_points y) < 2 then NaN else Fin (lstsq_slope (finite_points y)))"
proof (cases "length (finite_points y) < 2")
  case True
  then show ?thesis
    using np_sum_finite_points [OF assms, of 0]
    by (simp add: calc_slope_def finite_points_def)
next
  case False
  let ?fi = "map (\<lambda>v. \<not> np_isnan v) y"
  let ?pts = "finite_points y"
  have n: "np_sum ?fi = length ?pts"
    using np_sum_finite_points [OF assms, of 0] by (simp add: finite_points_def)
  have x: "getitem_mask (np_arange (length y)) ?fi = map fst ?pts"
    using mask_positions [OF assms, of 0] by (simp add: np_arange_def finite_points_def)
  have v: "as_reals (getitem_mask y ?fi) = Some (map snd ?pts)"
    using mask_values [OF assms, of 0] by (simp add: finite_points_def)
  have l: "length (getitem_mask y ?fi) = length ?pts"
    using mask_values_length [of y] n by simp
  have z: "zip (map fst ?pts) (map snd ?pts) = ?pts"
    by (simp add: zip_map_fst_snd)
  have d: "det ?pts \<noteq> 0"
    using two_points_det [of y] False det_nonzero by (metis not_less)
  have ne: "?pts \<noteq> []" using False by auto
  have "np_polyfit other (map fst ?pts) (getitem_mask y ?fi) 1
          = Inr [Fin (lstsq_slope ?pts), Fin (lstsq_intercept ?pts)]"
    using d ne l by (simp add: np_polyfit_def v z)
  then show ?thesis
    using False n by (simp add: calc_slope_def Let_def x getitem_def)
qed

lemma np_sum_non_nan:
  "np_sum (map (\<lambda>v. \<not> np_isnan v) y) = length (non_nan_points_from i y)"
proof (induction y arbitrary: i)
  case Nil
  then show ?case by simp
next
  case (Cons v y)
  then show ?case by (cases v) (simp_all add: np_isnan_def)
qed

lemma mask_positions_non_nan:
  "getitem_mask (map real [i..<i + length y]) (map (\<lambda>v. \<not> np_isnan v) y)
     = map fst (non_nan_points_from i y)"
proof (induction y arbitrary: i)
  case Nil
  then show ?case by simp
next
  case (Cons v y)
  have e: "map real [i..<i + length (v # y)] = real i # map real [Suc i..<Suc i + length y]"
    by (simp add: upt_conv_Cons del: upt_Suc)
  from Cons.IH [of "Suc i"] show ?case
    unfolding e by (cases v) (simp_all add: np_isnan_def del: upt_Suc)
qed

lemma mask_values_non_nan:
  "getitem_mask y (map (\<lambda>v. \<not> np_isnan v) y) = map snd (non_nan_points_from i y)"
proof (induction y arbitrary: i)
  case Nil
  then show ?case by simp
next
  case (Cons v y)
  then show ?case by (cases v) (simp_all add: np_isnan_def)
qed

lemma calc_slope_non_nan:
  "calc_slope polyfit y
     = (if length (non_nan_points y) < 2 then Inr NaN
        else (case polyfit (map fst (non_nan_points y)) (map snd (non_nan_points y)) 1 of
                Inl e \<Rightarrow> Inl e
              | Inr c \<Rightarrow> getitem c 0))"
  using np_sum_non_nan [of y 0] mask_positions_non_nan [of 0 y] mask_values_non_nan [of y 0]
  by (simp add: calc_slope_def non_nan_points_def np_arange_def Let_def)

text \<open>
  C4 as stated: on every input the result is the slope through the finite entries (NaN
  when there are fewer than two), and nothing is raised. On \<open>[inf, 1, 2]\<close> the finite
  entries are 1 and 2 at the positions 1 and 2, with slope 1. \<open>calc_slope\<close> drops NaN
  only and hands all three points, the infinite one among them, to the fit. What
  numpy's fit does on data that are not finite is not fixed by the model; whether it
  raises LinAlgError or returns NaN coefficients, \<open>calc_slope\<close> does not return 1.
\<close>

theorem infinite_entry_counterexample:
  "finite_points [PInf, Fin 1, Fin 2] = [(1, 1), (2, 2)]
   \<and> lstsq_slope [(1, 1), (2, 2)] = 1
   \<and> non_nan_points [PInf, Fin 1, Fin 2] = [(0, PInf), (1, Fin 1), (2, Fin 2)]
   \<and> calc_slope (np_polyfit (\<lambda>x y deg. Inl LinAlgError)) [PInf, Fin 1, Fin 2] = Inl LinAlgError
   \<and> calc_slope (np_polyfit (\<lambda>x y deg. Inr [NaN, NaN])) [PInf, Fin 1, Fin 2] = Inr NaN"
  by (simp add: finite_points_def non_nan_points_def lstsq_slope_def det_def Sx_def Sy_def
      Sxx_def Sxy_def calc_slope_def np_isnan_def np_arange_def np_polyfit_def getitem_def
      upt_conv_Cons)

text \<open>
  C4 as amended. For every vector \<open>y\<close>, \<open>calc_slope\<close> returns NaN when fewer than two
  entries are not NaN, and otherwise the first coefficient of the degree-1 fit of the
  entries that are not NaN, infinite ones included, against their positions. For a
  vector of real numbers and NaNs, with numpy's fit, it raises nothing and returns NaN
  when fewer than two entries are finite, and otherwise the slope of the least-squares
  line through the finite entries against their positions: the line with this slope and
  the matching intercept has the least squared error, and no other line reaches it.
\<close>

theorem calc_slope_least_squares:
  "calc_slope polyfit y
     = (if length (non_nan_points y) < 2 then Inr NaN
        else (case polyfit (map fst (non_nan_points y)) (map snd (non_nan_points y)) 1 of
                Inl e \<Rightarrow> Inl e
              | Inr c \<Rightarrow> getitem c 0))
   \<and> ((\<forall>v \<in> set y. v \<noteq> PInf \<and> v \<noteq> NInf) \<longrightarrow>
        calc_slope (np_polyfit other) y
           = Inr (if length (finite_points y) < 2 then NaN
                  else Fin (lstsq_slope (finite_points y)))
       \<and> (2 \<le> length (finite_points y) \<longrightarrow>
            (\<forall>a b. squared_error (finite_points y)
                      (lstsq_slope (finite_points y)) (lstsq_intercept (finite_points y))
                    \<le> squared_error (finite_points y) a b)
          \<and> (\<forall>a b. squared_error (finite_points y) a b
                    \<le> squared_error (finite_points y)
                        (lstsq_slope (finite_points y)) (lstsq_intercept (finite_points y))
                  \<longrightarrow> a = lstsq_slope (finite_points y) \<and> b = lstsq_intercept (finite_points y))))"
proof (intro conjI impI allI)
  show "calc_slope polyfit y
     = (if length (non_nan_points y) < 2 then Inr NaN
        else (case polyfit (map fst (non_nan_points y)) (map snd (non_nan_points y)) 1 of
                Inl e \<Rightarrow> Inl e
              | Inr c \<Rightarrow> getitem c 0))"
    by (rule calc_slope_non_nan)
next
  assume "\<forall>v \<in> set y. v \<noteq> PInf \<and> v \<noteq> NInf"
  then show "calc_slope (np_polyfit other) y
           = Inr (if length (finite_points y) < 2 then NaN
                  else Fin (lstsq_slope (finite_points y)))"
    by (rule calc_slope_value)
next
  fix a b
  assume "2 \<le> length (finite_points y)"
  then have "det (finite_points y) \<noteq> 0"
    using two_points_det [of y] det_nonzero by blast
  then show "squared_error (finite_points y)
               (lstsq_slope (finite_points y)) (lstsq_intercept (finite_points y))
             \<le> squared_error (finite_points y) a b"
    by (rule lstsq_minimal)
next
  fix a b
  assume two: "2 \<le> length (finite_points y)"
    and le: "squared_error (finite_points y) a b
             \<le> squared_error (finite_points y)
                 (lstsq_slope (finite_points y)) (lstsq_intercept (finite_points y))"
  from two_points_det [OF two] obtain x1 v1 x2 v2
    where "(x1, v1) \<in> set (finite_points y)" "(x2, v2) \<in> set (finite_points y)" "x1 \<noteq> x2"
    by blast
  from lstsq_unique [OF this le]
  show "a = lstsq_slope (finite_points y)" "b = lstsq_intercept (finite_points y)"
    by simp_all
qed

theorem calc_slope_least_squares_witness:
  "calc_slope (np_polyfit (\<lambda>x y deg. Inl LinAlgError)) [Fin 1, NaN, Fin 5, Fin 6]
     = Inr (Fin (12 / 7))
   \<and> calc_slope (np_polyfit (\<lambda>x y deg. Inl LinAlgError)) [NaN, Fin 5, NaN] = Inr NaN
   \<and> (\<forall>a b. squared_error [(0, 1), (2, 5), (3, 6)] (12 / 7) (8 / 7)
             \<le> squared_error [(0, 1), (2, 5), (3, 6)] a b)"
proof -
  have h1: "\<forall>v \<in> set [Fin 1, NaN, Fin 5, Fin 6]. v \<noteq> PInf \<and> v \<noteq> NInf"
    by simp
  have h2: "\<forall>v \<in> set [NaN, Fin 5, NaN]. v \<noteq> PInf \<and> v \<noteq> NInf"
    by simp
  have p: "finite_points [Fin 1, NaN, Fin 5, Fin 6] = [(0, 1), (2, 5), (3, 6)]"
    by (simp add: finite_points_def)
  have q: "finite_points [NaN, Fin 5, NaN] = [(1, 5)]"
    by (simp add: finite_points_def)
  have s: "lstsq_slope [(0, 1), (2, 5), (3, 6)] = 12 / 7"
    "lstsq_intercept [(0, 1), (2, 5), (3, 6)] = 8 / 7"
    by (simp_all add: lstsq_slope_def lstsq_intercept_def det_def Sx_def Sy_def Sxx_def Sxy_def)
  have a: "calc_slope (np_polyfit (\<lambda>x y deg. Inl LinAlgError)) [Fin 1, NaN, Fin 5, Fin 6]
             = Inr (Fin (12 / 7))
          \<and> (\<forall>a b. squared_error [(0, 1), (2, 5), (3, 6)] (12 / 7) (8 / 7)
             \<le> squared_error [(0, 1), (2, 5), (3, 6)] a b)"
    using calc_slope_least_squares
      [of "np_polyfit (\<lambda>x y deg. Inl LinAlgError)" "[Fin 1, NaN, Fin 5, Fin 6]"
          "\<lambda>x y deg. Inl LinAlgError", THEN conjunct2, THEN mp, OF h1]
    by (simp add: p s)
  have b: "calc_slope (np_polyfit (\<lambda>x y deg. Inl LinAlgError)) [NaN, Fin 5, NaN] = Inr NaN"
    using calc_slope_least_squares
      [of "np_polyfit (\<lambda>x y deg. Inl LinAlgError)" "[NaN, Fin 5, NaN]"
          "\<lambda>x y deg. Inl LinAlgError", THEN conjunct2, THEN mp, OF h2]
    by (simp add: q)
  from a b show ?thesis by blast
qed

section \<open>Errors and fallback values\<close>

text \<open>
  C3 as stated: no code of the repository puts a fallback value in the place of an
  exception. On the series \<open>[NaN]\<close> nothing is left after the missing values are
  dropped; the library's fit raises TypeError on these data, and \<open>calc_slope\<close> returns
  NaN instead.
\<close>

theorem fallback_value_counterexample:
  "np_polyfit (\<lambda>x y deg. Inl LinAlgError)
      (getitem_mask (np_arange (length [NaN])) (map (\<lambda>v. \<not> np_isnan v) [NaN]))
      (getitem_mask [NaN] (map (\<lambda>v. \<not> np_isnan v) [NaN])) 1 = Inl TypeError
   \<and> calc_slope (np_polyfit (\<lambda>x y deg. Inl LinAlgError)) [NaN] = Inr NaN"
  by (simp add: np_polyfit_def calc_slope_def np_arange_def np_isnan_def)

lemma getitem_np_diff:
  "getitem (np_diff b) 0 = (if length b < 2 then Inl IndexError else Inr (b ! 1 - b ! 0))"
proof (cases b)
  case Nil
  then show ?thesis by (simp add: getitem_def)
next
  case (Cons a b')
  then show ?thesis by (cases b') (simp_all add: getitem_def)
qed

lemma time_bound_diff_Inl_iff:
  "time_bound_diff ds = Inl e \<longleftrightarrow> e = IndexError \<and> (\<exists>t \<in> set ds. length (time_bnds t) < 2)"
  by (induction ds) (auto simp: getitem_np_diff split: sum.splits if_splits)

lemma calc_slope_Inl_iff:
  "calc_slope polyfit y = Inl e \<longleftrightarrow>
     2 \<le> np_sum (map (\<lambda>v. \<not> np_isnan v) y)
     \<and> (polyfit (getitem_mask (np_arange (length y)) (map (\<lambda>v. \<not> np_isnan v) y))
                 (getitem_mask y (map (\<lambda>v. \<not> np_isnan v) y)) 1 = Inl e
        \<or> polyfit (getitem_mask (np_arange (length y)) (map (\<lambda>v. \<not> np_isnan v) y))
                   (getitem_mask y (map (\<lambda>v. \<not> np_isnan v) y)) 1 = Inr [] \<and> e = IndexError)"
  by (auto simp: calc_slope_def Let_def getitem_def split: sum.splits if_splits)

lemma linear_trend_Inl_iff:
  "linear_trend polyfit da = Inl e \<longleftrightarrow>
     (\<exists>pre y post. da = pre @ y # post \<and> calc_slope polyfit y = Inl e
        \<and> (\<forall>z \<in> set pre. \<exists>s. calc_slope polyfit z = Inr s))"
proof (induction da)
  case Nil
  then show ?case by simp
next
  case (Cons y da)
  show ?case
  proof (cases "calc_slope polyfit y")
    case (Inl e')
    have "(\<exists>pre z post. y # da = pre @ z # post \<and> calc_slope polyfit z = Inl e
             \<and> (\<forall>z \<in> set pre. \<exists>s. calc_slope polyfit z = Inr s)) \<longleftrightarrow> e' = e"
    proof
      assume "\<exists>pre z post. y # da = pre @ z # post \<and> calc_slope polyfit z = Inl e
             \<and> (\<forall>z \<in> set pre. \<exists>s. calc_slope polyfit z = Inr s)"
      then obtain pre z post where p: "y # da = pre @ z # post" "calc_slope polyfit z = Inl e"
        "\<forall>z \<in> set pre. \<exists>s. calc_slope polyfit z = Inr s" by blast
      show "e' = e"
      proof (cases pre)
        case Nil
        with p Inl show ?thesis by simp
      next
        case (Cons a pre')
        with p Inl show ?thesis by auto
      qed
    next
      assume "e' = e"
      with Inl have "y # da = [] @ y # da \<and> calc_slope polyfit y = Inl e
             \<and> (\<forall>z \<in> set []. \<exists>s. calc_slope polyfit z = Inr s)" by simp
      then show "\<exists>pre z post. y # da = pre @ z # post \<and> calc_slope polyfit z = Inl e
             \<and> (\<forall>z \<in> set pre. \<exists>s. calc_slope polyfit z = Inr s)" by blast
    qed
    with Inl show ?thesis by auto
  next
    case (Inr s)
    have "(\<exists>pre z post. y # da = pre @ z # post \<and> calc_slope polyfit z = Inl e
             \<and> (\<forall>z \<in> set pre. \<exists>s. calc_slope polyfit z = Inr s))
        \<longleftrightarrow> (\<exists>pre z post. da = pre @ z # post \<and> calc_slope polyfit z = Inl e
             \<and> (\<forall>z \<in> set pre. \<exists>s. calc_slope polyfit z = Inr s))"
    proof
      assume "\<exists>pre z post. y # da = pre @ z # post \<and> calc_slope polyfit z = Inl e
             \<and> (\<forall>z \<in> set pre. \<exists>s. calc_slope polyfit z = Inr s)"
      then obtain pre z post where p: "y # da = pre @ z # post" "calc_slope polyfit z = Inl e"
        "\<forall>z \<in> set pre. \<exists>s. calc_slope polyfit z = Inr s" by blast
      show "\<exists>pre z post. da = pre @ z # post \<and> calc_slope polyfit z = Inl e
             \<and> (\<forall>z \<in> set pre. \<exists>s. calc_slope polyfit z = Inr s)"
      proof (cases pre)
        case Nil
        with p Inr show ?thesis by simp
      next
        case (Cons a pre')
        with p have "da = pre' @ z # post" "\<forall>z \<in> set pre'. \<exists>s. calc_slope polyfit z = Inr s"
          by simp_all
        with p(2) show ?thesis by blast
      qed
    next
      assume "\<exists>pre z post. da = pre @ z # post \<and> calc_slope polyfit z = Inl e
             \<and> (\<forall>z \<in> set pre. \<exists>s. calc_slope polyfit z = Inr s)"
      then obtain pre z post where p: "da = pre @ z # post" "calc_slope polyfit z = Inl e"
        "\<forall>z \<in> set pre. \<exists>s. calc_slope polyfit z = Inr s" by blast
      then have "y # da = (y # pre) @ z # post"
        "\<forall>z \<in> set (y # pre). \<exists>s. calc_slope polyfit z = Inr s"
        using Inr by simp_all
      with p(2) show "\<exists>pre z post. y # da = pre @ z # post \<and> calc_slope polyfit z = Inl e
             \<and> (\<forall>z \<in> set pre. \<exists>s. calc_slope polyfit z = Inr s)" by blast
    qed
    moreover have "linear_trend polyfit (y # da) = Inl e \<longleftrightarrow> linear_trend polyfit da = Inl e"
      using Inr by (simp split: sum.splits)
    ultimately show ?thesis
      using Cons.IH by (simp only:)
  qed
qed

lemma winter_trends_Inl_iff:
  "winter_trends polyfit w = Inl e \<longleftrightarrow> linear_trend polyfit (snd w) = Inl e"
  "obs_winter_trends polyfit w = Inl e \<longleftrightarrow> linear_trend polyfit (snd w) = Inl e"
  by (auto simp: winter_trends_def obs_winter_trends_def split: sum.splits)

lemma resample_AS_sum_Inl_iff:
  "resample_AS_sum ts rows = Inl e \<longleftrightarrow> e = ValueError \<and> (ts = [] \<or> \<not> is_monotonic ts)"
  by (auto simp: resample_AS_sum_def)

lemma weighted_temporal_mean_Inl_iff:
  "weighted_temporal_mean ds = Inl e \<longleftrightarrow>
     e = IndexError \<and> (\<exists>t \<in> set ds. length (time_bnds t) < 2)
   \<or> e = ValueError \<and> ds = []
   \<or> (\<exists>dl. time_bound_diff ds = Inr dl \<and> ds \<noteq> []
         \<and> (e = AssertionError
               \<and> (\<exists>Y \<in> set (years ds). sum_list (year_group (years ds) dl Y) = 0)
            \<or> e = ValueError
               \<and> (\<forall>Y \<in> set (years ds). sum_list (year_group (years ds) dl Y) \<noteq> 0)
               \<and> \<not> is_monotonic (map time ds)))"
proof (cases "time_bound_diff ds")
  case (Inl e')
  then have "e' = IndexError" "\<exists>t \<in> set ds. length (time_bnds t) < 2"
    using time_bound_diff_Inl_iff [of ds e'] by simp_all
  moreover from this have "ds \<noteq> []" by auto
  ultimately show ?thesis
    using Inl by (auto simp: weighted_temporal_mean_def)
next
  case (Inr dl)
  then have no: "\<not> (\<exists>t \<in> set ds. length (time_bnds t) < 2)"
    using time_bound_diff_Inl_iff [of ds IndexError] by auto
  have len: "length (years ds) = length dl"
    using time_bound_diff_length [OF Inr] by simp
  show ?thesis
  proof (cases "ds = []")
    case True
    with Inr show ?thesis by (auto simp: weighted_temporal_mean_def)
  next
    case False
    note ne = this
    show ?thesis
    proof (cases "\<forall>Y \<in> set (years ds). sum_list (year_group (years ds) dl Y) \<noteq> 0")
      case True
      then have ok: "assert_allclose (year_sums (years ds) (wgts (years ds) dl)) 1 = Inr ()"
        using assert_allclose_year_sums [OF len] by simp
      have "weighted_temporal_mean ds = Inl e \<longleftrightarrow> e = ValueError \<and> \<not> is_monotonic (map time ds)"
        using ne by (auto simp: weighted_temporal_mean_def Inr ok Let_def resample_AS_sum_def
            split: sum.splits)
      with True Inr ne no show ?thesis by auto
    next
      case False
      then have "assert_allclose (year_sums (years ds) (wgts (years ds) dl)) 1 \<noteq> Inr ()"
        using assert_allclose_year_sums [OF len] by simp
      then have bad: "assert_allclose (year_sums (years ds) (wgts (years ds) dl)) 1 = Inl AssertionError"
        by (simp add: assert_allclose_def split: if_splits)
      have "weighted_temporal_mean ds = Inl e \<longleftrightarrow> e = AssertionError"
        using ne by (auto simp: weighted_temporal_mean_def Inr bad Let_def)
      with False Inr ne no show ?thesis by auto
    qed
  qed
qed

text \<open>
  C3 as amended. No recovery or retry is written in the notebooks: in the functions they
  define, a failure of a library operation is the outcome of the function, unchanged.
  \<open>weighted_temporal_mean\<close> ends in the IndexError of the time-bound indexing, in the
  ValueError of grouping an empty dataset, in the AssertionError of \<open>assert_allclose\<close>
  or in the ValueError of resampling a time index that is not monotonic, each exactly
  when the input provokes it. \<open>calc_slope\<close> raises exactly what the fit raises, or the
  IndexError of indexing an empty result of the fit; \<open>linear_trend\<close> and the winter
  trends raise the exception of the first series that fails. The one place where the
  repository's code puts a value where there would be a failure is \<open>calc_slope\<close>, which
  returns NaN for a series with fewer than two entries that are not NaN, without
  calling the fit.
\<close>

theorem errors_propagate:
  "(np_sum (map (\<lambda>v. \<not> np_isnan v) y) < 2 \<longrightarrow> calc_slope polyfit y = Inr NaN)
   \<and> (calc_slope polyfit y = Inl e \<longleftrightarrow>
        2 \<le> np_sum (map (\<lambda>v. \<not> np_isnan v) y)
        \<and> (polyfit (getitem_mask (np_arange (length y)) (map (\<lambda>v. \<not> np_isnan v) y)) (getitem_mask y (map (\<lambda>v. \<not> np_isnan v) y)) 1 = Inl e
           \<or> polyfit (getitem_mask (np_arange (length y)) (map (\<lambda>v. \<not> np_isnan v) y)) (getitem_mask y (map (\<lambda>v. \<not> np_isnan v) y)) 1 = Inr []
              \<and> e = IndexError))
   \<and> (linear_trend polyfit da = Inl e \<longleftrightarrow>
        (\<exists>pre y' post. da = pre @ y' # post \<and> calc_slope polyfit y' = Inl e
           \<and> (\<forall>z \<in> set pre. \<exists>s. calc_slope polyfit z = Inr s)))
   \<and> (winter_trends polyfit w = Inl e \<longleftrightarrow> linear_trend polyfit (snd w) = Inl e)
   \<and> (obs_winter_trends polyfit w = Inl e \<longleftrightarrow> linear_trend polyfit (snd w) = Inl e)
   \<and> (time_bound_diff ds = Inl e \<longrightarrow> weighted_temporal_mean ds = Inl e)
   \<and> (weighted_temporal_mean ds = Inl e \<longleftrightarrow>
        e = IndexError \<and> (\<exists>t \<in> set ds. length (time_bnds t) < 2)
      \<or> e = ValueError \<and> ds = []
      \<or> (\<exists>dl. time_bound_diff ds = Inr dl \<and> ds \<noteq> []
            \<and> (e = AssertionError
                  \<and> (\<exists>Y \<in> set (years ds). sum_list (year_group (years ds) dl Y) = 0)
               \<or> e = ValueError
                  \<and> (\<forall>Y \<in> set (years ds). sum_list (year_group (years ds) dl Y) \<noteq> 0)
                  \<and> \<not> is_monotonic (map time ds))))"
proof (intro conjI)
  show "np_sum (map (\<lambda>v. \<not> np_isnan v) y) < 2 \<longrightarrow> calc_slope polyfit y = Inr NaN"
    by (simp add: calc_slope_def)
  show "calc_slope polyfit y = Inl e \<longleftrightarrow>
        2 \<le> np_sum (map (\<lambda>v. \<not> np_isnan v) y)
        \<and> (polyfit (getitem_mask (np_arange (length y)) (map (\<lambda>v. \<not> np_isnan v) y)) (getitem_mask y (map (\<lambda>v. \<not> np_isnan v) y)) 1 = Inl e
           \<or> polyfit (getitem_mask (np_arange (length y)) (map (\<lambda>v. \<not> np_isnan v) y)) (getitem_mask y (map (\<lambda>v. \<not> np_isnan v) y)) 1 = Inr []
              \<and> e = IndexError)"
    by (rule calc_slope_Inl_iff)
  show "linear_trend polyfit da = Inl e \<longleftrightarrow>
        (\<exists>pre y' post. da = pre @ y' # post \<and> calc_slope polyfit y' = Inl e
           \<and> (\<forall>z \<in> set pre. \<exists>s. calc_slope polyfit z = Inr s))"
    by (rule linear_trend_Inl_iff)
  show "winter_trends polyfit w = Inl e \<longleftrightarrow> linear_trend polyfit (snd w) = Inl e"
    by (rule winter_trends_Inl_iff)
  show "obs_winter_trends polyfit w = Inl e \<longleftrightarrow> linear_trend polyfit (snd w) = Inl e"
    by (rule winter_trends_Inl_iff)
  show "time_bound_diff ds = Inl e \<longrightarrow> weighted_temporal_mean ds = Inl e"
    by (simp add: weighted_temporal_mean_def)
  show "weighted_temporal_mean ds = Inl e \<longleftrightarrow>
        e = IndexError \<and> (\<exists>t \<in> set ds. length (time_bnds t) < 2)
      \<or> e = ValueError \<and> ds = []
      \<or> (\<exists>dl. time_bound_diff ds = Inr dl \<and> ds \<noteq> []
            \<and> (e = AssertionError
                  \<and> (\<exists>Y \<in> set (years ds). sum_list (year_group (years ds) dl Y) = 0)
               \<or> e = ValueError
                  \<and> (\<forall>Y \<in> set (years ds). sum_list (year_group (years ds) dl Y) \<noteq> 0)
                  \<and> \<not> is_monotonic (map time ds)))"
    by (rule weighted_temporal_mean_Inl_iff)
qed

theorem errors_propagate_witness:
  "calc_slope (\<lambda>x y deg. Inl LinAlgError) [Fin 4] = Inr NaN
   \<and> calc_slope (\<lambda>x y deg. Inl LinAlgError) [Fin 4, Fin 2] = Inl LinAlgError
   \<and> weighted_temporal_mean
        [\<lparr>time = \<lparr>year = 2000, month = 1\<rparr>, time_bnds = [3], air = [Fin 1]\<rparr>] = Inl IndexError"
  using errors_propagate [of "[Fin 4]" "\<lambda>x y deg. Inl LinAlgError"]
    errors_propagate [of "[Fin 4, Fin 2]" "\<lambda>x y deg. Inl LinAlgError" LinAlgError]
    errors_propagate [of "[Fin 4]" "\<lambda>x y deg. Inl LinAlgError" IndexError "[]" "([], [])"
      "[\<lparr>time = \<lparr>year = 2000, month = 1\<rparr>, time_bnds = [3], air = [Fin 1]\<rparr>]"]
  by (simp add: np_isnan_def np_arange_def getitem_def)

section \<open>Linear trends of the two datasets\<close>






section \<open>The weighted temporal mean is an algorithm of the notebook\<close>

lemma times_wgts_zip:
  "length ys = length ds \<Longrightarrow> length ds = length dl \<Longrightarrow>
   times_wgts (map row ds) (map (\<lambda>(y, d). fdiv (Fin d) (Fin (g y))) (zip ys dl))
     = map (\<lambda>(y, p). map (\<lambda>v. fmul v (fdiv (Fin (snd p)) (Fin (g y)))) (row (fst p)))
         (zip ys (zip ds dl))"
  by (induction ys ds dl rule: list_induct3) (auto simp: times_wgts_def)

lemma year_group_times_wgts:
  assumes "length ys = length ds" "length ds = length dl"
  shows "year_group ys (times_wgts (map row ds) (wgts ys dl)) Y
     = map (\<lambda>p. map (\<lambda>v. fmul v (fdiv (Fin (snd p)) (Fin (sum_list (year_group ys dl Y))))) (row (fst p)))
         (year_group ys (zip ds dl) Y)"
  unfolding wgts_def times_wgts_zip [OF assms]
  by (rule year_group_map_zip) (use assms in simp)

lemma column_year_rows:
  assumes "\<forall>p \<in> set G. c < length (row (fst p))"
  shows "column (map (\<lambda>p. map (\<lambda>v. fmul v (w p)) (row (fst p))) G) c
           = map (\<lambda>p. fmul (row (fst p) ! c) (w p)) G"
  using assms by (induction G) (auto simp: column_def)

lemma available_Nil [simp]: "available [] c = []"
  by (simp add: available_def)

lemma available_Cons:
  "available (p # G) c
     = (case air (fst p) ! c of Fin v \<Rightarrow> (snd p, v) # available G c | _ \<Rightarrow> available G c)"
  by (cases p; cases "air (fst p) ! c") (simp_all add: available_def)

lemma nansum_Nil: "nansum [] = Fin 0"
  by (simp add: nansum_def)

lemma nansum_Cons: "nansum (v # vs) = (if isnull v then nansum vs else fadd v (nansum vs))"
  by (simp add: nansum_def)

lemma weighted_obs_sum:
  assumes "\<forall>p \<in> set G. air (fst p) ! c \<noteq> PInf \<and> air (fst p) ! c \<noteq> NInf"
  shows "nansum (map (\<lambda>p. fmul (air (fst p) ! c) (Fin (snd p / S))) G)
           = Fin (sum_list (map (\<lambda>(d, v). d * v) (available G c)) / S)"
  using assms
proof (induction G)
  case Nil
  then show ?case by (simp add: nansum_Nil)
next
  case (Cons p G)
  then show ?case
    by (cases "air (fst p) ! c")
       (simp_all add: nansum_Cons isnull_def available_Cons add_divide_distrib algebra_simps)
qed

lemma weighted_ones_sum:
  assumes "\<forall>p \<in> set G. air (fst p) ! c \<noteq> PInf \<and> air (fst p) ! c \<noteq> NInf"
    and "\<forall>p \<in> set G. c < length (air (fst p))"
  shows "nansum (map (\<lambda>p. fmul (ones (air (fst p)) ! c) (Fin (snd p / S))) G)
           = Fin (sum_list (map fst (available G c)) / S)"
  using assms
proof (induction G)
  case Nil
  then show ?case by (simp add: nansum_Nil)
next
  case (Cons p G)
  then show ?case
    by (cases "air (fst p) ! c")
       (simp_all add: nansum_Cons isnull_def available_Cons ones_def add_divide_distrib)
qed

lemma available_weight_pos:
  assumes "\<forall>p \<in> set G. 0 < snd p" "available G c \<noteq> []"
  shows "0 < sum_list (map fst (available G c))"
proof -
  have "\<forall>d \<in> set (map fst (available G c)). 0 < d"
    using assms(1) by (induction G) (auto simp: available_Cons split: fval.splits)
  moreover have "map fst (available G c) \<noteq> []" using assms(2) by simp
  ultimately show ?thesis by (metis sum_list_pos_real)
qed

lemma cell_ratio:
  assumes "\<forall>p \<in> set G. air (fst p) ! c \<noteq> PInf \<and> air (fst p) ! c \<noteq> NInf"
    and "\<forall>p \<in> set G. c < length (air (fst p))"
    and "\<forall>p \<in> set G. 0 < snd p" and "S \<noteq> 0"
  shows "fdiv (nansum (map (\<lambda>p. fmul (air (fst p) ! c) (Fin (snd p / S))) G))
              (nansum (map (\<lambda>p. fmul (ones (air (fst p)) ! c) (Fin (snd p / S))) G))
         = (let av = available G c
            in if av = [] then NaN
               else Fin (sum_list (map (\<lambda>(d, v). d * v) av) / sum_list (map fst av)))"
proof (cases "available G c = []")
  case True
  then show ?thesis
    unfolding weighted_obs_sum [OF assms(1)] weighted_ones_sum [OF assms(1,2)] by (simp add: Let_def)
next
  case False
  from available_weight_pos [OF assms(3) False]
  have "sum_list (map fst (available G c)) \<noteq> 0" by simp
  with False assms(4) show ?thesis
    unfolding weighted_obs_sum [OF assms(1)] weighted_ones_sum [OF assms(1,2)] by (simp add: Let_def)
qed


lemma zip_map_same:
  "map (\<lambda>(a, b). f a b) (zip (map g cs) (map h cs)) = map (\<lambda>c. f (g c) (h c)) cs"
  by (induction cs) simp_all

lemma length_ones [simp]: "length (ones r) = length r"
  by (simp add: ones_def)

lemma hd_times_wgts_length:
  "rows \<noteq> [] \<Longrightarrow> length ws = length rows \<Longrightarrow> length (hd (times_wgts rows ws)) = length (hd rows)"
  by (cases rows; cases ws) (simp_all add: times_wgts_def)

lemma length_wgts: "length ys = length dl \<Longrightarrow> length (wgts ys dl) = length dl"
  by (simp add: wgts_def)

lemma year_group_empty:
  "Y \<notin> set ys \<Longrightarrow> year_group ys xs Y = []"
  by (auto simp: year_group_def filter_empty_conv dest: set_zip_leftD)

lemma year_group_zip_members:
  assumes "p \<in> set (year_group ys (zip ds dl) Y)"
  shows "fst p \<in> set ds \<and> snd p \<in> set dl"
proof -
  have "p \<in> set (zip ds dl)"
    using assms set_year_group [of ys "zip ds dl" Y] by blast
  then have "(fst p, snd p) \<in> set (zip ds dl)" by simp
  then show ?thesis
    by (blast dest: set_zip_leftD set_zip_rightD)
qed

lemma year_value:
  assumes len: "length dl = length ds"
    and pos: "\<forall>d \<in> set dl. 0 < d"
    and rect: "\<forall>t \<in> set ds. length (air t) = nc"
    and noinf: "\<forall>t \<in> set ds. \<forall>v \<in> set (air t). v \<noteq> PInf \<and> v \<noteq> NInf"
  shows "map (\<lambda>(a, b). fdiv a b)
           (zip (bin_sum nc (year_group (years ds) (times_wgts (map air ds) (wgts (years ds) dl)) Y))
                (bin_sum nc (year_group (years ds)
                   (times_wgts (map (\<lambda>t. ones (air t)) ds) (wgts (years ds) dl)) Y)))
         = map (cell_weighted_mean ds dl Y) [0..<nc]"
proof (cases "Y \<in> set (years ds)")
  case False
  then have "cell_weighted_mean ds dl Y c = NaN" for c
    by (simp add: cell_weighted_mean_def year_group_empty)
  then have "map (cell_weighted_mean ds dl Y) [0..<nc] = map (\<lambda>c. NaN) [0..<nc]"
    by simp
  then have "map (cell_weighted_mean ds dl Y) [0..<nc] = replicate nc NaN"
    by (simp add: map_replicate_const)
  moreover have "map (\<lambda>(a, b). fdiv a b) (zip (replicate nc NaN) (replicate nc NaN)) = replicate nc NaN"
    by (simp add: zip_replicate)
  ultimately show ?thesis
    using False by (simp add: year_group_empty bin_sum_def)
next
  case True
  let ?ys = "years ds"
  let ?G = "year_group ?ys (zip ds dl) Y"
  let ?S = "sum_list (year_group ?ys dl Y)"
  have l1: "length ?ys = length ds" by simp
  have l2: "length ds = length dl" using len by simp
  have l3: "length ?ys = length dl" using len by simp
  have S: "?S \<noteq> 0"
    using positive_year_sums [OF l3 pos True] .
  have w: "fdiv (Fin d) (Fin ?S) = Fin (d / ?S)" for d
    using S by simp
  have A: "year_group ?ys (times_wgts (map air ds) (wgts ?ys dl)) Y
             = map (\<lambda>p. map (\<lambda>v. fmul v (Fin (snd p / ?S))) (air (fst p))) ?G"
    unfolding year_group_times_wgts [OF l1 l2] w ..
  have B: "year_group ?ys (times_wgts (map (\<lambda>t. ones (air t)) ds) (wgts ?ys dl)) Y
             = map (\<lambda>p. map (\<lambda>v. fmul v (Fin (snd p / ?S))) (ones (air (fst p)))) ?G"
    unfolding year_group_times_wgts [OF l1 l2] w ..
  have G: "?G \<noteq> []"
    by (rule year_group_nonempty) (use True len in simp_all)
  have mem: "fst p \<in> set ds \<and> snd p \<in> set dl" if "p \<in> set ?G" for p
    using that by (rule year_group_zip_members)
  have cell: "fdiv (nansum (column (map (\<lambda>p. map (\<lambda>v. fmul v (Fin (snd p / ?S))) (air (fst p))) ?G) c))
                   (nansum (column (map (\<lambda>p. map (\<lambda>v. fmul v (Fin (snd p / ?S))) (ones (air (fst p)))) ?G) c))
               = cell_weighted_mean ds dl Y c" if c: "c < nc" for c
  proof -
    have inr: "\<forall>p \<in> set ?G. c < length (air (fst p))"
      using mem rect c by auto
    have inr': "\<forall>p \<in> set ?G. c < length (ones (air (fst p)))"
      using inr by simp
    have ni: "\<forall>p \<in> set ?G. air (fst p) ! c \<noteq> PInf \<and> air (fst p) ! c \<noteq> NInf"
      using mem noinf inr by (metis nth_mem)
    have ps: "\<forall>p \<in> set ?G. 0 < snd p"
      using mem pos by blast
    show ?thesis
      unfolding column_year_rows [of ?G c air, OF inr]
        column_year_rows [of ?G c "\<lambda>t. ones (air t)", OF inr']
        cell_ratio [OF ni inr ps S] cell_weighted_mean_def ..
  qed
  have "map (\<lambda>(a, b). fdiv a b)
           (zip (bin_sum nc (year_group ?ys (times_wgts (map air ds) (wgts ?ys dl)) Y))
                (bin_sum nc (year_group ?ys (times_wgts (map (\<lambda>t. ones (air t)) ds) (wgts ?ys dl)) Y)))
        = map (\<lambda>c. fdiv (nansum (column (map (\<lambda>p. map (\<lambda>v. fmul v (Fin (snd p / ?S))) (air (fst p))) ?G) c))
                   (nansum (column (map (\<lambda>p. map (\<lambda>v. fmul v (Fin (snd p / ?S))) (ones (air (fst p)))) ?G) c)))
            [0..<nc]"
    unfolding A B using G by (simp add: bin_sum_def zip_map_same)
  also have "\<dots> = map (cell_weighted_mean ds dl Y) [0..<nc]"
    using cell by simp
  finally show ?thesis .
qed


lemma resample_AS_sum_value:
  assumes "ds \<noteq> []" "is_monotonic (map time ds)" "length ws = length ds"
  shows "resample_AS_sum (map time ds) (times_wgts (map row ds) ws)
           = Inr (map (\<lambda>Y. (Y, bin_sum (length (row (hd ds)))
                                 (year_group (years ds) (times_wgts (map row ds) ws) Y)))
                    [year (time (hd ds)) .. year (time (last ds))])"
proof -
  have "length (hd (times_wgts (map row ds) ws)) = length (row (hd ds))"
    using assms(1,3) by (simp add: hd_times_wgts_length hd_map)
  moreover have "map year (map time ds) = years ds"
    by (simp add: years_def)
  ultimately show ?thesis
    using assms(1,2) by (simp add: resample_AS_sum_def hd_map last_map)
qed

text \<open>
  C1 as stated: no algorithm, such as a weighted temporal mean, is implemented by the
  repository's code, whose functions only hand their computation to the libraries. On
  two observations of one year, 0 over an interval of length 1 and 4 over an interval of
  length 3, the library's annual mean is 2, and \<open>weighted_temporal_mean\<close> returns 3:
  the weighting by the time bounds is computed by the notebook's function.
\<close>

theorem own_algorithm_counterexample:
  "resample_AS_mean (map time two_months_example) (map air two_months_example)
     = Inr [(2000, [Fin 2])]
   \<and> weighted_temporal_mean two_months_example = Inr [(2000, Fin 3)]"
  by (simp add: two_months_example_def resample_AS_mean_def bin_mean_def is_monotonic_def
      time_le_def year_group_def column_def nanmean_def isnull_def
      weighted_temporal_mean_def getitem_def years_def wgts_def year_sums_def nansum_def
      assert_allclose_def isclose_def resample_AS_sum_def times_wgts_def bin_sum_def ones_def)

text \<open>
  C1 as amended. The repository authors no data structure, and its primitive operations
  are library calls, but \<open>weighted_temporal_mean\<close> implements a weighted temporal
  mean on top of them. For a non-empty rectangular dataset in time order, with positive
  time-bound differences and no infinite observation, it returns for every calendar
  year from the first to the last the mean over the grid cells of the cell's weighted
  mean: the observations of the year that are present, weighted by the lengths of their
  time-bounds intervals.
\<close>

theorem weighted_temporal_mean_spec:
  assumes tbd: "time_bound_diff ds = Inr dl"
    and ne: "ds \<noteq> []"
    and pos: "\<forall>d \<in> set dl. 0 < d"
    and mono: "is_monotonic (map time ds)"
    and rect: "rectangular ds"
    and noinf: "\<forall>t \<in> set ds. \<forall>v \<in> set (air t). v \<noteq> PInf \<and> v \<noteq> NInf"
  shows "weighted_temporal_mean ds
           = Inr (map (\<lambda>Y. (Y, nanmean (map (cell_weighted_mean ds dl Y) [0..<length (air (hd ds))])))
                    [year (time (hd ds)) .. year (time (last ds))])"
proof -
  let ?ys = "years ds" and ?nc = "length (air (hd ds))"
  let ?ws = "wgts ?ys dl"
  have len: "length dl = length ds"
    using tbd by (rule time_bound_diff_length)
  have l3: "length ?ys = length dl" using len by simp
  have lw: "length ?ws = length ds" using len by (simp add: length_wgts)
  have ok: "assert_allclose (year_sums ?ys ?ws) 1 = Inr ()"
    using assert_allclose_year_sums [OF l3] positive_year_sums [OF l3 pos] by blast
  have cells: "\<forall>t \<in> set ds. length (air t) = ?nc"
    using rect by (simp add: rectangular_def list_all_iff)
  have A: "resample_AS_sum (map time ds) (times_wgts (map air ds) ?ws)
           = Inr (map (\<lambda>Y. (Y, bin_sum ?nc (year_group ?ys (times_wgts (map air ds) ?ws) Y)))
                    [year (time (hd ds)) .. year (time (last ds))])"
    using resample_AS_sum_value [OF ne mono lw, of air] .
  have B: "resample_AS_sum (map time ds) (times_wgts (map (\<lambda>t. ones (air t)) ds) ?ws)
           = Inr (map (\<lambda>Y. (Y, bin_sum ?nc (year_group ?ys (times_wgts (map (\<lambda>t. ones (air t)) ds) ?ws) Y)))
                    [year (time (hd ds)) .. year (time (last ds))])"
    using resample_AS_sum_value [OF ne mono lw, of "\<lambda>t. ones (air t)"] by simp
  have "weighted_temporal_mean ds
          = Inr (map (\<lambda>Y. (Y, nanmean (map (\<lambda>(a, b). fdiv a b)
                     (zip (bin_sum ?nc (year_group ?ys (times_wgts (map air ds) ?ws) Y))
                          (bin_sum ?nc (year_group ?ys (times_wgts (map (\<lambda>t. ones (air t)) ds) ?ws) Y))))))
                  [year (time (hd ds)) .. year (time (last ds))])"
    unfolding weighted_temporal_mean_def using ne
    by (simp add: tbd ok A B Let_def case_prod_beta zip_map_same)
  then show ?thesis
    unfolding year_value [OF len pos cells noinf] .
qed

theorem weighted_temporal_mean_spec_witness:
  "weighted_temporal_mean hadcrut_example = Inr [(2000, Fin 3), (2001, NaN), (2002, Fin 6)]"
proof -
  have d: "time_bound_diff hadcrut_example = Inr [1, 3, 2]"
    by (simp add: hadcrut_example_def getitem_def)
  have ne: "hadcrut_example \<noteq> []"
    by (simp add: hadcrut_example_def)
  have p: "\<forall>d \<in> set [1, 3, 2 :: real]. 0 < d"
    by simp
  have m: "is_monotonic (map time hadcrut_example)"
    by (simp add: hadcrut_example_def is_monotonic_def time_le_def)
  have r: "rectangular hadcrut_example"
    by (simp add: hadcrut_example_def rectangular_def)
  have n: "\<forall>t \<in> set hadcrut_example. \<forall>v \<in> set (air t). v \<noteq> PInf \<and> v \<noteq> NInf"
    by (simp add: hadcrut_example_def)
  have u: "[2000 .. 2002 :: int] = [2000, 2001, 2002]"
    by (simp add: upto.simps)
  have c: "cell_weighted_mean hadcrut_example [1, 3, 2] 2000 0 = Fin 3"
    "cell_weighted_mean hadcrut_example [1, 3, 2] 2000 (Suc 0) = NaN"
    "cell_weighted_mean hadcrut_example [1, 3, 2] 2001 0 = NaN"
    "cell_weighted_mean hadcrut_example [1, 3, 2] 2001 (Suc 0) = NaN"
    "cell_weighted_mean hadcrut_example [1, 3, 2] 2002 0 = Fin 5"
    "cell_weighted_mean hadcrut_example [1, 3, 2] 2002 (Suc 0) = Fin 7"
    by (simp_all add: cell_weighted_mean_def available_def year_group_def years_def
        hadcrut_example_def)
  have h: "air (hd hadcrut_example) = [Fin 0, NaN]"
    "year (time (hd hadcrut_example)) = 2000" "year (time (last hadcrut_example)) = 2002"
    by (simp_all add: hadcrut_example_def)
  have i: "[0..<2] = [0, Suc 0]"
    by (simp add: upt_conv_Cons)
  from weighted_temporal_mean_spec [OF d ne p m r n] show ?thesis
    by (simp add: h u i c nanmean_def isnull_def)
qed

end
